theory Spec2Isabelle
  imports Complex_Main
begin

text \<open>
  A model of \<open>index.js\<close> of node-circuit-breaker-wrapper: \<open>create\<close> and the functions
  it closes over (\<open>getState\<close>, \<open>emitStateChange\<close>, \<open>emitWithArgs\<close>, \<open>run\<close>,
  \<open>emitter.run\<close>, \<open>emitter.wrap\<close>), as functions on the state those functions share.
  Every emitted event and every call of the worker, of the callback and of the engine's
  \<open>success()\<close> and \<open>failure()\<close> is appended to a trace, so that what is claimed about
  the order and the number of these can be stated on the trace. The clock (\<open>Date.now()\<close>,
  in milliseconds) is an argument of every function that reads it or calls the engine.
\<close>

section \<open>Values, events and the observable trace\<close>

text \<open>
  JavaScript values as far as the wrapper looks at them: it tests the callback's return
  value for truthiness and builds one \<open>Error\<close>. Numbers are restricted to the integers
  and \<open>NaN\<close>; \<open>JObject\<close> is any other (non-callable) object, named by a number.
\<close>

datatype jsval =
    JUndefined
  | JNull
  | JBool bool
  | JNum int
  | JNaN
  | JStr string
  | JError string
  | JObject nat

text \<open>The truthiness test of \<open>if (...)\<close> and of \<open>c ? a : b\<close>.\<close>

fun truthy :: "jsval \<Rightarrow> bool" where
  "truthy JUndefined = False"
| "truthy JNull = False"
| "truthy (JBool b) = b"
| "truthy (JNum n) = (n \<noteq> 0)"
| "truthy JNaN = False"
| "truthy (JStr s) = (s \<noteq> [])"
| "truthy (JError m) = True"
| "truthy (JObject n) = True"

text \<open>
  An element of an argument list: a first-order value, or a function (such as the
  trailing callback of \<open>emitter.run\<close>) with what it returns for the arguments it is
  called with.
\<close>

datatype jsarg = Val jsval | Fn "jsval list \<Rightarrow> jsval"

datatype js_error = TypeError

text \<open>The engine's states, the three constants \<open>breaker._state\<close> is compared with.\<close>

datatype cb_state = OPEN | HALF_OPEN | CLOSED

text \<open>The metrics object the engine hands to \<open>onCircuitOpen\<close> and \<open>onCircuitClose\<close>.\<close>

record metrics =
  totalCount :: nat
  errorCount :: nat
  errorPercentage :: rat

text \<open>
  The two payload shapes: the object literal of \<open>emitWithArgs\<close> (service, name, state,
  args) and the one of \<open>emitStateChange\<close> (service, name, state, duration, time,
  totalCount, errorCount, errorPercentage). \<open>duration\<close> is \<open>None\<close> for \<open>null\<close>;
  the quotient by 1000 is taken exactly, as a rational.
\<close>

datatype payload =
    ArgsPayload (p_service: string) (p_name: string) (p_state: string) (p_args: "jsarg list")
  | StatePayload (p_service: string) (p_name: string) (p_state: string)
      (p_duration: "rat option") (p_time: int)
      (p_totalCount: nat) (p_errorCount: nat) (p_errorPercentage: rat)

text \<open>
  What a run of the wrapper does that can be seen from outside, in order: an
  \<open>emitter.emit\<close>, a call of the worker (with the arguments before the injected
  completion function), a call of the callback (with its arguments), and a call of the
  engine's \<open>success()\<close> or \<open>failure()\<close>. What the listeners of an event do, and
  exceptions thrown by the worker or the callback themselves, are outside the model.
\<close>

datatype obs =
    Emit string payload
  | WorkerCalled "jsarg list"
  | CallbackCalled "jsval list"
  | SuccessReported
  | FailureReported

section \<open>The engine, as the wrapper uses it\<close>

text \<open>
  The class \<open>CircuitBreaker\<close> of the package \<open>circuit-breaker-js\<close> is required by
  \<open>index.js\<close> and is not among the sources: it is a parameter of the model. The
  wrapper is written over any engine with the interface \<open>index.js\<close> calls:
  \<^item> \<open>eng_new\<close>: the constructor, from the five options (lines 61 to 66);
  \<^item> \<open>eng_state\<close>: the field \<open>_state\<close> (line 29);
  \<^item> \<open>eng_run\<close>: \<open>breaker.run(command, fallback)\<close> (line 81) at a clock reading:
    \<open>True\<close> when it invokes the command (the call is admitted), \<open>False\<close> when it
    invokes the fallback (the call is rejected), with the engine as it is at that call;
  \<^item> \<open>eng_success\<close>, \<open>eng_failure\<close>: the two functions passed to the command
    (lines 85 and 89); each returns the calls of \<open>onCircuitOpen\<close>/\<open>onCircuitClose\<close>
    it makes, each with the engine as it is at that call and the metrics passed, and
    the engine as it is left.

  Modelled from the spec: that \<open>breaker.run\<close> invokes exactly one of its two arguments,
  once and synchronously (section 4.3: an attempt is Admitted or Rejected), and that a
  report notifies its state changes synchronously, before it returns (sections 4.3 and
  4.5).
\<close>

record options =
  windowDuration :: "int option"
  numBuckets :: "int option"
  timeoutDuration :: "int option"
  errorThreshold :: "int option"
  volumeThreshold :: "int option"

record 'b engine =
  eng_new :: "options \<Rightarrow> 'b"
  eng_state :: "'b \<Rightarrow> cb_state"
  eng_run :: "int \<Rightarrow> 'b \<Rightarrow> bool \<times> 'b"
  eng_success :: "int \<Rightarrow> 'b \<Rightarrow> ('b \<times> metrics) list \<times> 'b"
  eng_failure :: "int \<Rightarrow> 'b \<Rightarrow> ('b \<times> metrics) list \<times> 'b"

section \<open>The wrapper (index.js)\<close>

text \<open>
  The variables closed over by the functions of \<open>create\<close>: \<open>service\<close>, \<open>name\<close>,
  \<open>breaker\<close> and \<open>lastStateChange\<close> (\<open>None\<close> while it is undefined), with the trace
  of what has been observed so far.
\<close>

record 'b wrapper =
  service :: string
  name :: string
  breaker :: 'b
  lastStateChange :: "int option"
  trace :: "obs list"

definition observe :: "obs \<Rightarrow> 'b wrapper \<Rightarrow> 'b wrapper" where
  "observe x w = w\<lparr>trace := trace w @ [x]\<rparr>"

text \<open>\<open>options = options || {}\<close>, then the five options are passed through as they are.\<close>

definition no_options :: options where
  "no_options = \<lparr>windowDuration = None, numBuckets = None, timeoutDuration = None,
     errorThreshold = None, volumeThreshold = None\<rparr>"

definition create :: "'b engine \<Rightarrow> string \<Rightarrow> string \<Rightarrow> options option \<Rightarrow> 'b wrapper" where
  "create eng svc nm opts =
     (let opts' = (case opts of None \<Rightarrow> no_options | Some v \<Rightarrow> v) in
      \<lparr>service = svc, name = nm,
       breaker = eng_new eng
         \<lparr>windowDuration = windowDuration opts', numBuckets = numBuckets opts',
          timeoutDuration = timeoutDuration opts', errorThreshold = errorThreshold opts',
          volumeThreshold = volumeThreshold opts'\<rparr>,
       lastStateChange = None, trace = []\<rparr>)"

definition getState :: "'b engine \<Rightarrow> 'b wrapper \<Rightarrow> string" where
  "getState eng w =
     (case eng_state eng (breaker w) of
        OPEN \<Rightarrow> ''open''
      | HALF_OPEN \<Rightarrow> ''halfOpen''
      | CLOSED \<Rightarrow> ''closed'')"

text \<open>
  \<open>emitStateChange(metrics)\<close> at the clock reading \<open>now\<close>. The test
  \<open>lastStateChange ? ... : null\<close> is one of truthiness: it fails for undefined and
  for the number 0.
\<close>

definition state_payload :: "'b engine \<Rightarrow> int \<Rightarrow> metrics \<Rightarrow> 'b wrapper \<Rightarrow> payload" where
  "state_payload eng now m w =
     StatePayload (service w) (name w) (getState eng w)
       (case lastStateChange w of
          None \<Rightarrow> None
        | Some t \<Rightarrow> if t = 0 then None else Some (of_int (now - t) / 1000))
       now (totalCount m) (errorCount m) (errorPercentage m)"

definition emitStateChange :: "'b engine \<Rightarrow> int \<Rightarrow> metrics \<Rightarrow> 'b wrapper \<Rightarrow> 'b wrapper" where
  "emitStateChange eng now m w =
     (let state = getState eng w;
          p = state_payload eng now m w
      in foldl (\<lambda>w' event. observe (Emit event p) w')
           (w\<lparr>lastStateChange := Some now\<rparr>) [''stateChange'', state])"

definition emitWithArgs :: "'b engine \<Rightarrow> string \<Rightarrow> jsarg list \<Rightarrow> 'b wrapper \<Rightarrow> 'b wrapper" where
  "emitWithArgs eng event args w =
     observe (Emit event (ArgsPayload (service w) (name w) (getState eng w) args)) w"

text \<open>
  A call of \<open>success()\<close> or \<open>failure()\<close>: the engine runs, calling
  \<open>emitStateChange\<close> (registered as both \<open>onCircuitOpen\<close> and \<open>onCircuitClose\<close>)
  for each of its notifications, in the state it has at that moment.
\<close>

definition notify ::
  "'b engine \<Rightarrow> int \<Rightarrow> ('b \<times> metrics) list \<times> 'b \<Rightarrow> 'b wrapper \<Rightarrow> 'b wrapper" where
  "notify eng now r w =
     (foldl (\<lambda>w' (b, m). emitStateChange eng now m (w'\<lparr>breaker := b\<rparr>)) w (fst r))
       \<lparr>breaker := snd r\<rparr>"

definition success :: "'b engine \<Rightarrow> int \<Rightarrow> 'b wrapper \<Rightarrow> 'b wrapper" where
  "success eng now w =
     (let w1 = observe SuccessReported w in notify eng now (eng_success eng now (breaker w1)) w1)"

definition failure :: "'b engine \<Rightarrow> int \<Rightarrow> 'b wrapper \<Rightarrow> 'b wrapper" where
  "failure eng now w =
     (let w1 = observe FailureReported w in notify eng now (eng_failure eng now (breaker w1)) w1)"

text \<open>
  The completion function injected as the worker's last argument (lines 83 to 92), called
  at the clock reading \<open>now\<close> with \<open>arguments\<close>. Calling a callback that is not
  a function throws a \<open>TypeError\<close> before anything else happens.
\<close>

definition done_fn ::
  "'b engine \<Rightarrow> jsarg list \<Rightarrow> jsarg \<Rightarrow> int \<times> jsval list \<Rightarrow> 'b wrapper
     \<Rightarrow> js_error option \<times> 'b wrapper" where
  "done_fn eng args callback call w =
     (case call of (now, arguments) \<Rightarrow>
        (case callback of
           Val v \<Rightarrow> (Some TypeError, w)
         | Fn f \<Rightarrow>
             (let w1 = observe (CallbackCalled arguments) w in
              if truthy (f arguments)
              then (None, emitWithArgs eng ''success'' args (success eng now w1))
              else (None, emitWithArgs eng ''failure'' args (failure eng now w1)))))"

text \<open>
  The worker is given by what it does synchronously with the completion function: the
  calls it makes, in order, each with the clock reading at the call and the arguments
  passed. A throw ends the worker. A completion the worker defers is a later call of
  \<open>done_fn\<close>, in the state the wrapper has then.
\<close>

fun done_calls ::
  "'b engine \<Rightarrow> jsarg list \<Rightarrow> jsarg \<Rightarrow> (int \<times> jsval list) list \<Rightarrow> 'b wrapper
     \<Rightarrow> js_error option \<times> 'b wrapper" where
  "done_calls eng args callback [] w = (None, w)"
| "done_calls eng args callback (c # cs) w =
     (case done_fn eng args callback c w of
        (Some e, w') \<Rightarrow> (Some e, w')
      | (None, w') \<Rightarrow> done_calls eng args callback cs w')"

text \<open>\<open>run(worker, args, callback)\<close> (lines 80 to 97) at the clock reading \<open>now\<close>.\<close>

definition run ::
  "'b engine \<Rightarrow> int \<Rightarrow> (jsarg list \<Rightarrow> (int \<times> jsval list) list) \<Rightarrow> jsarg list \<Rightarrow> jsarg
     \<Rightarrow> 'b wrapper \<Rightarrow> js_error option \<times> 'b wrapper" where
  "run eng now worker args callback w =
     (case eng_run eng now (breaker w) of
        (True, b) \<Rightarrow>
          (let w1 = emitWithArgs eng ''run'' args (w\<lparr>breaker := b\<rparr>);
               w2 = observe (WorkerCalled args) w1
           in done_calls eng args callback (worker args) w2)
      | (False, b) \<Rightarrow>
          (let w1 = emitWithArgs eng ''rejected'' args (w\<lparr>breaker := b\<rparr>) in
           (case callback of
              Val v \<Rightarrow> (Some TypeError, w1)
            | Fn f \<Rightarrow>
                (None, observe (CallbackCalled
                   [JError (''Service Unavailable: '' @ service w1 @ '' ('' @ name w1 @ '')'')]) w1))))"

text \<open>
  \<open>emitter.run(worker, ...)\<close>: the arguments after the worker are sliced off and the
  last one is popped as the callback (\<open>pop\<close> of an empty array gives undefined).
\<close>

fun pop :: "jsarg list \<Rightarrow> jsarg list \<times> jsarg" where
  "pop [] = ([], Val JUndefined)"
| "pop (x # xs) = (butlast (x # xs), last (x # xs))"

definition emitter_run ::
  "'b engine \<Rightarrow> int \<Rightarrow> (jsarg list \<Rightarrow> (int \<times> jsval list) list) \<Rightarrow> jsarg list
     \<Rightarrow> 'b wrapper \<Rightarrow> js_error option \<times> 'b wrapper" where
  "emitter_run eng now worker rest w =
     (case pop rest of (args, callback) \<Rightarrow> run eng now worker args callback w)"

text \<open>\<open>emitter.wrap(worker, ...)\<close>: the object with \<open>args\<close> and \<open>run\<close>.\<close>

record 'b wrapped =
  wrapped_args :: "jsarg list"
  wrapped_run :: "int \<Rightarrow> jsarg \<Rightarrow> 'b wrapper \<Rightarrow> js_error option \<times> 'b wrapper"

definition emitter_wrap ::
  "'b engine \<Rightarrow> (jsarg list \<Rightarrow> (int \<times> jsval list) list) \<Rightarrow> jsarg list \<Rightarrow> 'b wrapped" where
  "emitter_wrap eng worker rest =
     \<lparr>wrapped_args = rest,
      wrapped_run = (\<lambda>now callback w. run eng now worker rest callback w)\<rparr>"

text \<open>Reading a trace: the names of the events emitted, and how often each kind of call was made.\<close>

fun event_names :: "obs list \<Rightarrow> string list" where
  "event_names [] = []"
| "event_names (Emit e p # xs) = e # event_names xs"
| "event_names (x # xs) = event_names xs"

fun callback_calls :: "obs list \<Rightarrow> jsval list list" where
  "callback_calls [] = []"
| "callback_calls (CallbackCalled a # xs) = a # callback_calls xs"
| "callback_calls (x # xs) = callback_calls xs"

fun worker_calls :: "obs list \<Rightarrow> jsarg list list" where
  "worker_calls [] = []"
| "worker_calls (WorkerCalled a # xs) = a # worker_calls xs"
| "worker_calls (x # xs) = worker_calls xs"

fun reports :: "obs list \<Rightarrow> obs list" where
  "reports [] = []"
| "reports (SuccessReported # xs) = SuccessReported # reports xs"
| "reports (FailureReported # xs) = FailureReported # reports xs"
| "reports (x # xs) = reports xs"

section \<open>The engine as the specification describes it\<close>

text \<open>
  Modelled from the spec: the engine (\<open>circuit-breaker-js\<close>) is not among the sources,
  so the metrics window, the state machine and the breaker facade below follow
  sections 3 and 4.1 to 4.3 of the specification, sentence by sentence. The
  specification leaves the default option values open; they are a parameter
  (\<open>defaults\<close>), as is the clock reading \<open>t0\<close> at construction.
\<close>

text \<open>Modelled from the spec: the five options of section 6, each with a value.\<close>

record config =
  cfg_windowDuration :: int
  cfg_numBuckets :: int
  cfg_timeoutDuration :: int
  cfg_errorThreshold :: int
  cfg_volumeThreshold :: int

text \<open>Modelled from the spec: Bucket, \<open>{totalCount, errorCount, startTime}\<close>.\<close>

record bucket =
  bucket_totalCount :: nat
  bucket_errorCount :: nat
  bucket_startTime :: rat

text \<open>
  Modelled from the spec: Window, a circular sequence of \<open>numBuckets\<close> buckets with a
  cursor and the \<open>lastRotated\<close> timestamp.
\<close>

record window =
  buckets :: "bucket list"
  cursor :: nat
  lastRotated :: rat

text \<open>
  Modelled from the spec: the Breaker, owning its configuration, one Window and the
  BreakerState (the state and \<open>enteredAt\<close>).
\<close>

record spec_breaker =
  sb_config :: config
  sb_window :: window
  sb_state :: cb_state
  sb_enteredAt :: int

text \<open>Modelled from the spec: bucket width = \<open>windowDuration / numBuckets\<close>.\<close>

definition bucket_width :: "config \<Rightarrow> rat" where
  "bucket_width cfg = of_int (cfg_windowDuration cfg) / of_int (cfg_numBuckets cfg)"

text \<open>
  Modelled from the spec: rotation advances the cursor by however many bucket widths
  have elapsed since the last rotation, clearing each bucket passed over.
\<close>

definition advance :: "config \<Rightarrow> window \<Rightarrow> window" where
  "advance cfg win =
     (let c = (cursor win + 1) mod length (buckets win);
          t = lastRotated win + bucket_width cfg
      in win\<lparr>buckets := (buckets win)
               [c := \<lparr>bucket_totalCount = 0, bucket_errorCount = 0, bucket_startTime = t\<rparr>],
             cursor := c, lastRotated := t\<rparr>)"

text \<open>
  Modelled from the spec: rotating to \<open>now\<close> advances once for every whole bucket width
  elapsed since \<open>lastRotated\<close> (the specification requires \<open>numBuckets \<ge> 1\<close> and
  \<open>windowDuration > 0\<close>).
\<close>

definition rotate :: "config \<Rightarrow> int \<Rightarrow> window \<Rightarrow> window" where
  "rotate cfg now win =
     (advance cfg ^^ nat \<lfloor>(of_int now - lastRotated win) / bucket_width cfg\<rfloor>) win"

text \<open>
  Modelled from the spec: \<open>recordSuccess(now)\<close> and \<open>recordFailure(now)\<close> first rotate
  the window to \<open>now\<close>, then increment \<open>totalCount\<close> (and \<open>errorCount\<close> for a
  failure) in the bucket at the cursor. \<open>increment\<close> is that second step.
\<close>

definition increment :: "nat \<Rightarrow> window \<Rightarrow> window" where
  "increment e win =
     (let c = cursor win; b = buckets win ! c
      in win\<lparr>buckets := (buckets win)
               [c := b\<lparr>bucket_totalCount := bucket_totalCount b + 1,
                       bucket_errorCount := bucket_errorCount b + e\<rparr>]\<rparr>)"

text \<open>Modelled from the spec: \<open>recordSuccess(now)\<close>.\<close>

definition recordSuccess :: "config \<Rightarrow> int \<Rightarrow> window \<Rightarrow> window" where
  "recordSuccess cfg now win = increment 0 (rotate cfg now win)"

text \<open>Modelled from the spec: \<open>recordFailure(now)\<close>.\<close>

definition recordFailure :: "config \<Rightarrow> int \<Rightarrow> window \<Rightarrow> window" where
  "recordFailure cfg now win = increment 1 (rotate cfg now win)"

text \<open>
  Modelled from the spec: \<open>snapshot()\<close> sums all buckets;
  \<open>errorPercentage = errorCount * 100 / totalCount\<close> when \<open>totalCount > 0\<close>, else 0.
\<close>

definition snapshot :: "window \<Rightarrow> metrics" where
  "snapshot win =
     (let t = sum_list (map bucket_totalCount (buckets win));
          e = sum_list (map bucket_errorCount (buckets win))
      in \<lparr>totalCount = t, errorCount = e,
          errorPercentage = (if 0 < t then of_nat e * 100 / of_nat t else 0)\<rparr>)"

text \<open>
  Modelled from the spec: the trip condition of the state table,
  \<open>totalCount \<ge> volumeThreshold\<close> and \<open>errorPercentage \<ge> errorThreshold\<close>.
\<close>

definition over_threshold :: "config \<Rightarrow> metrics \<Rightarrow> bool" where
  "over_threshold cfg m =
     (cfg_volumeThreshold cfg \<le> int (totalCount m)
      \<and> of_int (cfg_errorThreshold cfg) \<le> errorPercentage m)"

text \<open>
  Modelled from the spec: \<open>attempt(now)\<close>, the admission check of the state table.
  Closed admits. Open admits one trial call and becomes HalfOpen once
  \<open>now - enteredAt \<ge> timeoutDuration\<close>, and rejects before. The table has no row for an
  admission check in HalfOpen; the glossary calls the state single-trial-admitting, so
  a further call is rejected.
\<close>

definition attempt :: "int \<Rightarrow> spec_breaker \<Rightarrow> bool \<times> spec_breaker" where
  "attempt now b =
     (case sb_state b of
        CLOSED \<Rightarrow> (True, b)
      | OPEN \<Rightarrow>
          if cfg_timeoutDuration (sb_config b) \<le> now - sb_enteredAt b
          then (True, b\<lparr>sb_state := HALF_OPEN, sb_enteredAt := now\<rparr>)
          else (False, b)
      | HALF_OPEN \<Rightarrow> (False, b))"

text \<open>
  Modelled from the spec: after an outcome is recorded the transitions are
  re-evaluated. Closed trips to Open on the condition above; the HalfOpen trial closes the
  breaker on success and opens it again on failure; each of these emits a state change
  with the snapshot. A report carries the clock reading and not the call it belongs to
  (\<open>reportSuccess(now)\<close>, \<open>reportFailure(now)\<close>), so an outcome reported while HalfOpen
  is taken as the trial's, also when it is that of a call admitted earlier and still in
  flight. The table has no row for an outcome reported while Open (a call still in
  flight): it is recorded and the state stays.
\<close>

definition transition :: "bool \<Rightarrow> int \<Rightarrow> spec_breaker \<Rightarrow> (spec_breaker \<times> metrics) list \<times> spec_breaker" where
  "transition ok now b =
     (let m = snapshot (sb_window b) in
      case sb_state b of
        CLOSED \<Rightarrow>
          if over_threshold (sb_config b) m
          then (let b' = b\<lparr>sb_state := OPEN, sb_enteredAt := now\<rparr> in ([(b', m)], b'))
          else ([], b)
      | HALF_OPEN \<Rightarrow>
          (let b' = b\<lparr>sb_state := (if ok then CLOSED else OPEN), sb_enteredAt := now\<rparr>
           in ([(b', m)], b'))
      | OPEN \<Rightarrow> ([], b))"

text \<open>
  Modelled from the spec: \<open>reportSuccess(now)\<close> records into the window, then
  re-evaluates the transitions.
\<close>

definition reportSuccess :: "int \<Rightarrow> spec_breaker \<Rightarrow> (spec_breaker \<times> metrics) list \<times> spec_breaker" where
  "reportSuccess now b =
     transition True now (b\<lparr>sb_window := recordSuccess (sb_config b) now (sb_window b)\<rparr>)"

text \<open>Modelled from the spec: \<open>reportFailure(now)\<close>, likewise.\<close>

definition reportFailure :: "int \<Rightarrow> spec_breaker \<Rightarrow> (spec_breaker \<times> metrics) list \<times> spec_breaker" where
  "reportFailure now b =
     transition False now (b\<lparr>sb_window := recordFailure (sb_config b) now (sb_window b)\<rparr>)"

text \<open>
  Modelled from the spec: construction. Unset options fall back to the defaults; the
  window starts at zero counts and the state at Closed.
\<close>

definition spec_new :: "config \<Rightarrow> int \<Rightarrow> options \<Rightarrow> spec_breaker" where
  "spec_new defaults t0 opts =
     (let cfg =
        \<lparr>cfg_windowDuration =
           (case windowDuration opts of None \<Rightarrow> cfg_windowDuration defaults | Some v \<Rightarrow> v),
         cfg_numBuckets =
           (case numBuckets opts of None \<Rightarrow> cfg_numBuckets defaults | Some v \<Rightarrow> v),
         cfg_timeoutDuration =
           (case timeoutDuration opts of None \<Rightarrow> cfg_timeoutDuration defaults | Some v \<Rightarrow> v),
         cfg_errorThreshold =
           (case errorThreshold opts of None \<Rightarrow> cfg_errorThreshold defaults | Some v \<Rightarrow> v),
         cfg_volumeThreshold =
           (case volumeThreshold opts of None \<Rightarrow> cfg_volumeThreshold defaults | Some v \<Rightarrow> v)\<rparr>
      in \<lparr>sb_config = cfg,
          sb_window =
            \<lparr>buckets = replicate (nat (cfg_numBuckets cfg))
               \<lparr>bucket_totalCount = 0, bucket_errorCount = 0, bucket_startTime = of_int t0\<rparr>,
             cursor = 0, lastRotated = of_int t0\<rparr>,
          sb_state = CLOSED, sb_enteredAt = t0\<rparr>)"

text \<open>
  Modelled from the spec: the engine of the specification, behind the interface the
  wrapper calls.
\<close>

definition spec_engine :: "config \<Rightarrow> int \<Rightarrow> spec_breaker engine" where
  "spec_engine defaults t0 =
     \<lparr>eng_new = spec_new defaults t0, eng_state = sb_state, eng_run = attempt,
      eng_success = reportSuccess, eng_failure = reportFailure\<rparr>"


section \<open>Reading traces\<close>

text \<open>
  The events that the notifications of one \<open>success()\<close> or \<open>failure()\<close> call give
  rise to, written out: for each notification the two emissions of \<open>emitStateChange\<close>,
  the first with the \<open>lastStateChange\<close> found, the later ones with the clock reading of
  the call. Lemma \<open>notify_eq\<close> shows that this is what \<open>notify\<close> appends.
\<close>

fun state_changes ::
  "'b engine \<Rightarrow> int \<Rightarrow> string \<Rightarrow> string \<Rightarrow> int option \<Rightarrow> ('b \<times> metrics) list \<Rightarrow> obs list" where
  "state_changes eng now svc nm l [] = []"
| "state_changes eng now svc nm l ((b, m) # ns) =
     [Emit ''stateChange'' (state_payload eng now m
        \<lparr>service = svc, name = nm, breaker = b, lastStateChange = l, trace = []\<rparr>),
      Emit (getState eng \<lparr>service = svc, name = nm, breaker = b, lastStateChange = l, trace = []\<rparr>)
        (state_payload eng now m
           \<lparr>service = svc, name = nm, breaker = b, lastStateChange = l, trace = []\<rparr>)]
     @ state_changes eng now svc nm (Some now) ns"

text \<open>The \<open>time\<close> of the most recent state-change event of a trace, if there is one.\<close>

fun last_change :: "obs list \<Rightarrow> int option" where
  "last_change [] = None"
| "last_change (x # xs) =
     (case last_change xs of
        Some t \<Rightarrow> Some t
      | None \<Rightarrow>
          (case x of
             Emit e (StatePayload svc nm st d t n k p) \<Rightarrow> Some t
           | _ \<Rightarrow> None))"

section \<open>A concrete breaker\<close>

text \<open>
  The breaker of Scenario C of the specification (section 8): \<open>create("S", "N")\<close> with
  \<open>volumeThreshold = 1\<close> and \<open>errorThreshold = 0\<close>, on the engine modelled above,
  constructed at clock reading 1000 with a window of 10 seconds in two buckets and a
  timeout of 3 seconds. \<open>tripped\<close> is that breaker after one failing call at 1010.
\<close>

definition test_defaults :: config where
  "test_defaults = \<lparr>cfg_windowDuration = 10000, cfg_numBuckets = 2, cfg_timeoutDuration = 3000,
     cfg_errorThreshold = 50, cfg_volumeThreshold = 5\<rparr>"

definition test_options :: options where
  "test_options = \<lparr>windowDuration = None, numBuckets = None, timeoutDuration = None,
     errorThreshold = Some 0, volumeThreshold = Some 1\<rparr>"

definition test_engine :: "spec_breaker engine" where
  "test_engine = spec_engine test_defaults 1000"

definition fresh :: "spec_breaker wrapper" where
  "fresh = create test_engine ''S'' ''N'' (Some test_options)"

definition tripped :: "spec_breaker wrapper" where
  "tripped = snd (run test_engine 1010 (\<lambda>args. [(1010, [])]) [] (Fn (\<lambda>xs. JBool False)) fresh)"

text \<open>The engine of \<open>fresh\<close> and of \<open>tripped\<close>, written out.\<close>

definition closed_breaker :: spec_breaker where
  "closed_breaker =
     \<lparr>sb_config = \<lparr>cfg_windowDuration = 10000, cfg_numBuckets = 2, cfg_timeoutDuration = 3000,
         cfg_errorThreshold = 0, cfg_volumeThreshold = 1\<rparr>,
      sb_window = \<lparr>buckets =
         [\<lparr>bucket_totalCount = 0, bucket_errorCount = 0, bucket_startTime = 1000\<rparr>,
          \<lparr>bucket_totalCount = 0, bucket_errorCount = 0, bucket_startTime = 1000\<rparr>],
         cursor = 0, lastRotated = 1000\<rparr>,
      sb_state = CLOSED, sb_enteredAt = 1000\<rparr>"

definition open_breaker :: spec_breaker where
  "open_breaker =
     \<lparr>sb_config = \<lparr>cfg_windowDuration = 10000, cfg_numBuckets = 2, cfg_timeoutDuration = 3000,
         cfg_errorThreshold = 0, cfg_volumeThreshold = 1\<rparr>,
      sb_window = \<lparr>buckets =
         [\<lparr>bucket_totalCount = 1, bucket_errorCount = 1, bucket_startTime = 1000\<rparr>,
          \<lparr>bucket_totalCount = 0, bucket_errorCount = 0, bucket_startTime = 1000\<rparr>],
         cursor = 0, lastRotated = 1000\<rparr>,
      sb_state = OPEN, sb_enteredAt = 1010\<rparr>"

text \<open>
  The breaker of Scenarios A and B: \<open>create("S", "N")\<close> with no options, so with the
  defaults chosen here (thresholds of 50 percent and 5 calls).
\<close>

definition plain :: "spec_breaker wrapper" where
  "plain = create test_engine ''S'' ''N'' None"

definition plain_breaker :: spec_breaker where
  "plain_breaker =
     \<lparr>sb_config = \<lparr>cfg_windowDuration = 10000, cfg_numBuckets = 2, cfg_timeoutDuration = 3000,
         cfg_errorThreshold = 50, cfg_volumeThreshold = 5\<rparr>,
      sb_window = \<lparr>buckets =
         [\<lparr>bucket_totalCount = 0, bucket_errorCount = 0, bucket_startTime = 1000\<rparr>,
          \<lparr>bucket_totalCount = 0, bucket_errorCount = 0, bucket_startTime = 1000\<rparr>],
         cursor = 0, lastRotated = 1000\<rparr>,
      sb_state = CLOSED, sb_enteredAt = 1000\<rparr>"



section \<open>What the wrapper's functions append to the trace\<close>

lemma event_names_append [simp]: "event_names (xs @ ys) = event_names xs @ event_names ys"
  by (induction xs rule: event_names.induct) simp_all

lemma callback_calls_append [simp]:
  "callback_calls (xs @ ys) = callback_calls xs @ callback_calls ys"
  by (induction xs rule: callback_calls.induct) simp_all

lemma worker_calls_append [simp]: "worker_calls (xs @ ys) = worker_calls xs @ worker_calls ys"
  by (induction xs rule: worker_calls.induct) simp_all

lemma reports_append [simp]: "reports (xs @ ys) = reports xs @ reports ys"
  by (induction xs rule: reports.induct) simp_all

lemma last_change_append:
  "last_change (xs @ ys) = (case last_change ys of None \<Rightarrow> last_change xs | Some t \<Rightarrow> Some t)"
  by (induction xs) (simp_all split: option.splits)

lemma emitStateChange_eq:
  "emitStateChange eng now m w =
     w\<lparr>lastStateChange := Some now,
       trace := trace w @ [Emit ''stateChange'' (state_payload eng now m w),
                           Emit (getState eng w) (state_payload eng now m w)]\<rparr>"
  by (simp add: emitStateChange_def observe_def Let_def)

lemma foldl_emitStateChange:
  "foldl (\<lambda>w' (b, m). emitStateChange eng now m (w'\<lparr>breaker := b\<rparr>)) w ns =
     (if ns = [] then w
      else w\<lparr>breaker := fst (last ns), lastStateChange := Some now,
             trace := trace w @ state_changes eng now (service w) (name w) (lastStateChange w) ns\<rparr>)"
proof (induction ns arbitrary: w)
  case Nil
  show ?case by simp
next
  case (Cons n ns)
  obtain b m where n: "n = (b, m)" by (cases n)
  define w1 where "w1 = emitStateChange eng now m (w\<lparr>breaker := b\<rparr>)"
  have "foldl (\<lambda>w' (b, m). emitStateChange eng now m (w'\<lparr>breaker := b\<rparr>)) w (n # ns) =
        foldl (\<lambda>w' (b, m). emitStateChange eng now m (w'\<lparr>breaker := b\<rparr>)) w1 ns"
    by (simp add: n w1_def)
  also have "\<dots> =
     (if ns = [] then w1
      else w1\<lparr>breaker := fst (last ns), lastStateChange := Some now,
              trace := trace w1 @
                state_changes eng now (service w1) (name w1) (lastStateChange w1) ns\<rparr>)"
    by (rule Cons.IH)
  finally show ?case
    by (simp add: n w1_def emitStateChange_eq state_payload_def getState_def)
qed

lemma notify_eq:
  "notify eng now r w =
     w\<lparr>breaker := snd r,
       lastStateChange := (if fst r = [] then lastStateChange w else Some now),
       trace := trace w @ state_changes eng now (service w) (name w) (lastStateChange w) (fst r)\<rparr>"
  by (simp add: notify_def foldl_emitStateChange)

lemma state_changes_calls [simp]:
  "callback_calls (state_changes eng now svc nm l ns) = []"
  "worker_calls (state_changes eng now svc nm l ns) = []"
  "reports (state_changes eng now svc nm l ns) = []"
  by (induction ns arbitrary: l; simp add: split_paired_all)+

lemma state_changes_names:
  "event_names (state_changes eng now (service w) (name w) l ns) =
     concat (map (\<lambda>(b, m). [''stateChange'', getState eng (w\<lparr>breaker := b\<rparr>)]) ns)"
  by (induction ns arbitrary: l) (simp_all add: split_paired_all getState_def)

lemma last_change_state_changes:
  "last_change (state_changes eng now svc nm l ns) = (if ns = [] then None else Some now)"
  by (induction ns arbitrary: l) (simp_all add: split_paired_all state_payload_def)

lemma done_fn_eq:
  "done_fn eng args (Fn f) (now, a) w =
     (let ok = truthy (f a);
          r = (if ok then eng_success eng now (breaker w) else eng_failure eng now (breaker w)) in
      (None,
       w\<lparr>breaker := snd r,
         lastStateChange := (if fst r = [] then lastStateChange w else Some now),
         trace := trace w
           @ [CallbackCalled a, if ok then SuccessReported else FailureReported]
           @ state_changes eng now (service w) (name w) (lastStateChange w) (fst r)
           @ [Emit (if ok then ''success'' else ''failure'')
                (ArgsPayload (service w) (name w) (getState eng (w\<lparr>breaker := snd r\<rparr>)) args)]\<rparr>))"
  by (simp add: done_fn_def success_def failure_def emitWithArgs_def observe_def
      notify_eq getState_def Let_def)

lemma done_calls_callback_calls:
  "callback_calls (trace (snd (done_calls eng args (Fn f) cs w))) =
     callback_calls (trace w) @ map snd cs"
proof (induction cs arbitrary: w)
  case Nil
  show ?case by simp
next
  case (Cons c cs)
  obtain t a where c: "c = (t, a)" by (cases c)
  obtain w' where w': "done_fn eng args (Fn f) (t, a) w = (None, w')"
    by (simp add: done_fn_eq Let_def)
  have "callback_calls (trace (snd (done_fn eng args (Fn f) (t, a) w))) =
        callback_calls (trace w) @ [a]"
    by (simp add: done_fn_eq Let_def)
  then have "callback_calls (trace w') = callback_calls (trace w) @ [a]"
    by (simp add: w')
  then show ?case
    by (simp add: c w' Cons.IH)
qed

lemma run_admitted:
  assumes "fst (eng_run eng now (breaker w))"
  shows "run eng now worker args callback w =
     done_calls eng args callback (worker args)
       (w\<lparr>breaker := snd (eng_run eng now (breaker w)),
          trace := trace w @
            [Emit ''run'' (ArgsPayload (service w) (name w)
               (getState eng (w\<lparr>breaker := snd (eng_run eng now (breaker w))\<rparr>)) args),
             WorkerCalled args]\<rparr>)"
  using assms
  by (cases "eng_run eng now (breaker w)")
     (simp add: run_def emitWithArgs_def observe_def getState_def Let_def)

lemma run_rejected:
  assumes "\<not> fst (eng_run eng now (breaker w))"
  shows "run eng now worker args (Fn f) w =
     (None,
      w\<lparr>breaker := snd (eng_run eng now (breaker w)),
        trace := trace w @
          [Emit ''rejected'' (ArgsPayload (service w) (name w)
             (getState eng (w\<lparr>breaker := snd (eng_run eng now (breaker w))\<rparr>)) args),
           CallbackCalled
             [JError (''Service Unavailable: '' @ service w @ '' ('' @ name w @ '')'')]]\<rparr>)"
  using assms
  by (cases "eng_run eng now (breaker w)")
     (simp add: run_def emitWithArgs_def observe_def getState_def Let_def)

lemma run_callback_calls:
  "callback_calls (trace (snd (run eng now worker args (Fn f) w))) =
     callback_calls (trace w) @
       (if fst (eng_run eng now (breaker w)) then map snd (worker args)
        else [[JError (''Service Unavailable: '' @ service w @ '' ('' @ name w @ '')'')]])"
proof (cases "fst (eng_run eng now (breaker w))")
  case True
  then show ?thesis
    by (simp add: run_admitted done_calls_callback_calls)
next
  case False
  then show ?thesis
    by (simp add: run_rejected)
qed

subsection \<open>The concrete breaker, evaluated\<close>

lemma test_engine_simps:
  "eng_state test_engine = sb_state" "eng_run test_engine = attempt"
  "eng_success test_engine = reportSuccess" "eng_failure test_engine = reportFailure"
  by (simp_all add: test_engine_def spec_engine_def)

lemma fresh_eq:
  "fresh = \<lparr>service = ''S'', name = ''N'', breaker = closed_breaker,
     lastStateChange = None, trace = []\<rparr>"
  by (simp add: fresh_def test_engine_def test_options_def test_defaults_def create_def
      spec_engine_def spec_new_def closed_breaker_def Let_def numeral_2_eq_2)

lemma fixture_states: "sb_state closed_breaker = CLOSED" "sb_state open_breaker = OPEN"
  by (simp_all add: closed_breaker_def open_breaker_def)

lemma attempt_closed: "attempt now closed_breaker = (True, closed_breaker)"
  by (simp add: attempt_def closed_breaker_def)

lemma attempt_open_early: "attempt 1500 open_breaker = (False, open_breaker)"
  by (simp add: attempt_def open_breaker_def)

lemma reportFailure_closed:
  "reportFailure 1010 closed_breaker =
     ([(open_breaker, \<lparr>totalCount = 1, errorCount = 1, errorPercentage = 100\<rparr>)], open_breaker)"
  by (simp add: closed_breaker_def open_breaker_def reportFailure_def transition_def
      over_threshold_def snapshot_def recordFailure_def increment_def rotate_def
      bucket_width_def Let_def)

lemma tripped_eq:
  "tripped =
     \<lparr>service = ''S'', name = ''N'', breaker = open_breaker, lastStateChange = Some 1010,
      trace =
        [Emit ''run'' (ArgsPayload ''S'' ''N'' ''closed'' []),
         WorkerCalled [], CallbackCalled [], FailureReported,
         Emit ''stateChange'' (StatePayload ''S'' ''N'' ''open'' None 1010 1 1 100),
         Emit ''open'' (StatePayload ''S'' ''N'' ''open'' None 1010 1 1 100),
         Emit ''failure'' (ArgsPayload ''S'' ''N'' ''open'' [])]\<rparr>"
  by (simp add: tripped_def run_admitted done_fn_eq fresh_eq test_engine_simps attempt_closed
      reportFailure_closed Let_def state_payload_def getState_def fixture_states)





lemma plain_eq:
  "plain = \<lparr>service = ''S'', name = ''N'', breaker = plain_breaker,
     lastStateChange = None, trace = []\<rparr>"
  by (simp add: plain_def test_engine_def test_defaults_def create_def no_options_def
      spec_engine_def spec_new_def plain_breaker_def Let_def numeral_2_eq_2)

lemma attempt_plain: "attempt now plain_breaker = (True, plain_breaker)"
  by (simp add: attempt_def plain_breaker_def)

lemma report_plain:
  "fst (reportSuccess 1010 plain_breaker) = []"
  "fst (reportFailure 1010 plain_breaker) = []"
  "sb_state (snd (reportSuccess 1010 plain_breaker)) = CLOSED"
  "sb_state (snd (reportFailure 1010 plain_breaker)) = CLOSED"
  by (simp_all add: plain_breaker_def reportSuccess_def reportFailure_def transition_def
      over_threshold_def snapshot_def recordSuccess_def recordFailure_def increment_def
      rotate_def bucket_width_def Let_def)

lemma plain_state: "sb_state plain_breaker = CLOSED"
  by (simp add: plain_breaker_def)

subsection \<open>The completion function and \<open>run\<close>\<close>

lemma done_fn_success:
  assumes "truthy (f a)"
  shows "reports (trace (snd (done_fn eng args (Fn f) (now, a) w))) =
        reports (trace w) @ [SuccessReported]
    \<and> breaker (snd (done_fn eng args (Fn f) (now, a) w)) = snd (eng_success eng now (breaker w))
    \<and> last (trace (snd (done_fn eng args (Fn f) (now, a) w))) =
        Emit ''success'' (ArgsPayload (service w) (name w)
          (getState eng (w\<lparr>breaker := snd (eng_success eng now (breaker w))\<rparr>)) args)
    \<and> event_names (drop (length (trace w)) (trace (snd (done_fn eng args (Fn f) (now, a) w)))) =
        concat (map (\<lambda>(b, m). [''stateChange'', getState eng (w\<lparr>breaker := b\<rparr>)])
          (fst (eng_success eng now (breaker w)))) @ [''success'']"
  using assms by (simp add: done_fn_eq Let_def state_changes_names)

lemma done_fn_failure:
  assumes "\<not> truthy (f a)"
  shows "reports (trace (snd (done_fn eng args (Fn f) (now, a) w))) =
        reports (trace w) @ [FailureReported]
    \<and> breaker (snd (done_fn eng args (Fn f) (now, a) w)) = snd (eng_failure eng now (breaker w))
    \<and> last (trace (snd (done_fn eng args (Fn f) (now, a) w))) =
        Emit ''failure'' (ArgsPayload (service w) (name w)
          (getState eng (w\<lparr>breaker := snd (eng_failure eng now (breaker w))\<rparr>)) args)
    \<and> event_names (drop (length (trace w)) (trace (snd (done_fn eng args (Fn f) (now, a) w)))) =
        concat (map (\<lambda>(b, m). [''stateChange'', getState eng (w\<lparr>breaker := b\<rparr>)])
          (fst (eng_failure eng now (breaker w)))) @ [''failure'']"
  using assms by (simp add: done_fn_eq Let_def state_changes_names)

lemma done_calls_extends:
  "\<exists>xs. trace (snd (done_calls eng args callback cs w)) = trace w @ xs"
proof (induction cs arbitrary: w)
  case Nil
  show ?case by simp
next
  case (Cons c cs)
  obtain t a where c: "c = (t, a)" by (cases c)
  show ?case
  proof (cases callback)
    case (Val v)
    then show ?thesis by (simp add: c done_fn_def)
  next
    case (Fn f)
    obtain w' where w': "done_fn eng args (Fn f) (t, a) w = (None, w')"
      by (simp add: done_fn_eq Let_def)
    then have "\<exists>ys. trace w' = trace w @ ys"
      by (auto simp add: done_fn_eq Let_def)
    then obtain ys where ys: "trace w' = trace w @ ys" ..
    from Cons.IH [of w'] obtain zs where
      "trace (snd (done_calls eng args callback cs w')) = trace w' @ zs" ..
    then show ?thesis
      by (simp add: c Fn w' ys)
  qed
qed

lemma run_starts:
  assumes "fst (eng_run eng now (breaker w))"
  shows "take 2 (drop (length (trace w)) (trace (snd (run eng now worker args callback w)))) =
     [Emit ''run'' (ArgsPayload (service w) (name w)
        (getState eng (w\<lparr>breaker := snd (eng_run eng now (breaker w))\<rparr>)) args),
      WorkerCalled args]"
proof -
  define w1 where "w1 = w\<lparr>breaker := snd (eng_run eng now (breaker w)),
          trace := trace w @
            [Emit ''run'' (ArgsPayload (service w) (name w)
               (getState eng (w\<lparr>breaker := snd (eng_run eng now (breaker w))\<rparr>)) args),
             WorkerCalled args]\<rparr>"
  obtain xs where "trace (snd (done_calls eng args callback (worker args) w1)) = trace w1 @ xs"
    using done_calls_extends by blast
  then show ?thesis
    by (simp add: run_admitted [OF assms] w1_def [symmetric]) (simp add: w1_def)
qed

lemma run_single_names:
  assumes "fst (eng_run eng now (breaker w))" and "worker args = [(t, a)]"
  shows "event_names (trace (snd (run eng now worker args (Fn f) w))) =
     event_names (trace w) @ [''run'']
     @ concat (map (\<lambda>(b, m). [''stateChange'', getState eng (w\<lparr>breaker := b\<rparr>)])
         (fst (if truthy (f a) then eng_success eng t (snd (eng_run eng now (breaker w)))
               else eng_failure eng t (snd (eng_run eng now (breaker w))))))
     @ [if truthy (f a) then ''success'' else ''failure'']"
  by (simp add: run_admitted [OF assms(1)] assms(2) done_fn_eq Let_def)
     (simp add: state_changes_names [of eng t w] getState_def)

lemma pop_snoc: "pop (xs @ [x]) = (xs, x)"
  by (cases xs) simp_all

subsection \<open>\<open>lastStateChange\<close> is the time of the last state-change event\<close>

lemma done_fn_keeps_last_change:
  assumes "lastStateChange w = last_change (trace w)"
  shows "lastStateChange (snd (done_fn eng args callback c w)) =
     last_change (trace (snd (done_fn eng args callback c w)))"
proof (cases callback)
  case (Val v)
  then show ?thesis using assms by (cases c) (simp add: done_fn_def)
next
  case (Fn f)
  obtain t a where c: "c = (t, a)" by (cases c)
  show ?thesis
    using assms
    by (simp add: Fn c done_fn_eq Let_def last_change_append last_change_state_changes)
qed

lemma done_calls_keeps_last_change:
  assumes "lastStateChange w = last_change (trace w)"
  shows "lastStateChange (snd (done_calls eng args callback cs w)) =
     last_change (trace (snd (done_calls eng args callback cs w)))"
  using assms
proof (induction cs arbitrary: w)
  case Nil
  then show ?case by simp
next
  case (Cons c cs)
  obtain e w' where r: "done_fn eng args callback c w = (e, w')"
    by (cases "done_fn eng args callback c w")
  have k: "lastStateChange w' = last_change (trace w')"
    using done_fn_keeps_last_change [OF Cons.prems, of eng args callback c] by (simp add: r)
  show ?case
  proof (cases e)
    case None
    then show ?thesis using Cons.IH [OF k] by (simp add: r)
  next
    case (Some x)
    then show ?thesis using k by (simp add: r)
  qed
qed

lemma run_keeps_last_change:
  assumes "lastStateChange w = last_change (trace w)"
  shows "lastStateChange (snd (run eng now worker args callback w)) =
     last_change (trace (snd (run eng now worker args callback w)))"
proof (cases "fst (eng_run eng now (breaker w))")
  case True
  show ?thesis
    unfolding run_admitted [OF True]
    by (rule done_calls_keeps_last_change) (simp add: assms last_change_append)
next
  case False
  then show ?thesis
    using assms
    by (cases "eng_run eng now (breaker w)"; cases callback)
       (simp_all add: run_def emitWithArgs_def observe_def Let_def last_change_append)
qed

lemma duration_since_previous_change:
  assumes "lastStateChange w = last_change (trace w)"
  shows "(last_change (trace w) = None \<longrightarrow> p_duration (state_payload eng now m w) = None)
   \<and> (\<forall>t. last_change (trace w) = Some t \<and> t \<noteq> 0 \<longrightarrow>
        p_duration (state_payload eng now m w) = Some (of_int (now - t) / 1000))
   \<and> trace (emitStateChange eng now m w) =
       trace w @ [Emit ''stateChange'' (state_payload eng now m w),
                  Emit (getState eng w) (state_payload eng now m w)]
   \<and> last_change (trace (emitStateChange eng now m w)) = Some now
   \<and> lastStateChange (emitStateChange eng now m w) =
       last_change (trace (emitStateChange eng now m w))
   \<and> lastStateChange (snd (run eng now' worker args callback w)) =
       last_change (trace (snd (run eng now' worker args callback w)))
   \<and> lastStateChange (create eng svc nm opts) = last_change (trace (create eng svc nm opts))
   \<and> last_change (trace (create eng svc nm opts)) = None"
proof (intro conjI)
  show "last_change (trace w) = None \<longrightarrow> p_duration (state_payload eng now m w) = None"
    using assms by (simp add: state_payload_def)
  show "\<forall>t. last_change (trace w) = Some t \<and> t \<noteq> 0 \<longrightarrow>
        p_duration (state_payload eng now m w) = Some (of_int (now - t) / 1000)"
    using assms by (simp add: state_payload_def)
  show "trace (emitStateChange eng now m w) =
       trace w @ [Emit ''stateChange'' (state_payload eng now m w),
                  Emit (getState eng w) (state_payload eng now m w)]"
    by (simp add: emitStateChange_eq)
  show "last_change (trace (emitStateChange eng now m w)) = Some now"
    by (simp add: emitStateChange_eq last_change_append state_payload_def)
  show "lastStateChange (emitStateChange eng now m w) =
       last_change (trace (emitStateChange eng now m w))"
    by (simp add: emitStateChange_eq last_change_append state_payload_def)
  show "lastStateChange (snd (run eng now' worker args callback w)) =
       last_change (trace (snd (run eng now' worker args callback w)))"
    by (rule run_keeps_last_change [OF assms])
  show "lastStateChange (create eng svc nm opts) = last_change (trace (create eng svc nm opts))"
    by (simp add: create_def Let_def)
  show "last_change (trace (create eng svc nm opts)) = None"
    by (simp add: create_def Let_def)
qed

subsection \<open>The engine of the specification\<close>






section \<open>The claims\<close>

text \<open>
  C1 (as amended). The callback is invoked once for each call the worker makes of the
  completion function, with the arguments of that call, when the call is admitted, and
  once, with the unavailable error, when the call is rejected: so exactly once per
  \<open>run\<close> call when the worker completes exactly once. As stated, for every invocation
  of \<open>run\<close>, the claim fails: a worker that completes twice has the callback invoked
  twice, and one that never completes, never.
\<close>

theorem run_callback_count:
  "callback_calls (trace (snd (run eng now worker args (Fn f) w))) =
     callback_calls (trace w) @
       (if fst (eng_run eng now (breaker w)) then map snd (worker args)
        else [[JError (''Service Unavailable: '' @ service w @ '' ('' @ name w @ '')'')]])
   \<and> length (callback_calls (trace (snd (run eng now worker args (Fn f) w)))) =
     length (callback_calls (trace w)) +
       (if fst (eng_run eng now (breaker w)) then length (worker args) else 1)"
  by (simp add: run_callback_calls)

theorem run_callback_count_counterexample:
  "fst (eng_run test_engine 1010 (breaker fresh))
   \<and> length (callback_calls (trace (snd
     (run test_engine 1010 (\<lambda>args. [(1010, []), (1010, [])]) [] (Fn (\<lambda>xs. JBool True)) fresh)))) = 2
   \<and> length (callback_calls (trace (snd
     (run test_engine 1010 (\<lambda>args. []) [] (Fn (\<lambda>xs. JBool True)) fresh)))) = 0"
  by (simp add: run_callback_calls test_engine_simps fresh_eq attempt_closed)

text \<open>
  C2. A call the breaker rejects never invokes the worker, reports neither a success nor
  a failure to the engine (which is left as its admission check left it), emits a
  \<open>rejected\<close> event and no other event, and invokes the callback once with an error
  whose message is \<open>Service Unavailable: <service> (<name>)\<close>.
\<close>

theorem rejected_call:
  assumes "\<not> fst (eng_run eng now (breaker w))"
  shows "worker_calls (trace (snd (run eng now worker args (Fn f) w))) = worker_calls (trace w)
    \<and> reports (trace (snd (run eng now worker args (Fn f) w))) = reports (trace w)
    \<and> breaker (snd (run eng now worker args (Fn f) w)) = snd (eng_run eng now (breaker w))
    \<and> event_names (trace (snd (run eng now worker args (Fn f) w))) =
        event_names (trace w) @ [''rejected'']
    \<and> callback_calls (trace (snd (run eng now worker args (Fn f) w))) =
        callback_calls (trace w) @
          [[JError (''Service Unavailable: '' @ service w @ '' ('' @ name w @ '')'')]]
    \<and> trace (snd (run eng now worker args (Fn f) w)) =
        trace w @
          [Emit ''rejected'' (ArgsPayload (service w) (name w)
             (getState eng (w\<lparr>breaker := snd (eng_run eng now (breaker w))\<rparr>)) args),
           CallbackCalled
             [JError (''Service Unavailable: '' @ service w @ '' ('' @ name w @ '')'')]]"
  by (simp add: run_rejected [OF assms])

theorem rejected_call_witness:
  "\<not> fst (eng_run test_engine 1500 (breaker tripped))
   \<and> worker_calls (trace (snd (run test_engine 1500 (\<lambda>args. [(1500, [])]) [Val (JNum 1)]
        (Fn (\<lambda>xs. JBool False)) tripped))) = [[]]
   \<and> reports (trace (snd (run test_engine 1500 (\<lambda>args. [(1500, [])]) [Val (JNum 1)]
        (Fn (\<lambda>xs. JBool False)) tripped))) = [FailureReported]
   \<and> breaker (snd (run test_engine 1500 (\<lambda>args. [(1500, [])]) [Val (JNum 1)]
        (Fn (\<lambda>xs. JBool False)) tripped)) = open_breaker
   \<and> event_names (trace (snd (run test_engine 1500 (\<lambda>args. [(1500, [])]) [Val (JNum 1)]
        (Fn (\<lambda>xs. JBool False)) tripped))) =
        [''run'', ''stateChange'', ''open'', ''failure'', ''rejected'']
   \<and> callback_calls (trace (snd (run test_engine 1500 (\<lambda>args. [(1500, [])]) [Val (JNum 1)]
        (Fn (\<lambda>xs. JBool False)) tripped))) = [[], [JError ''Service Unavailable: S (N)'']]"
proof -
  have h: "\<not> fst (eng_run test_engine 1500 (breaker tripped))"
    by (simp add: test_engine_simps tripped_eq attempt_open_early)
  show ?thesis
    using h rejected_call [OF h, of "\<lambda>args. [(1500, [])]" "[Val (JNum 1)]" "\<lambda>xs. JBool False"]
    by (simp add: test_engine_simps tripped_eq attempt_open_early)
qed

text \<open>
  C3. The completion function passes the arguments it receives to the callback as they
  are, whatever they are (an error value among them or not). The boolean the callback
  returns decides the outcome: on \<open>true\<close> a success is reported to the engine and the
  last event emitted is \<open>success\<close>, on \<open>false\<close> a failure is reported and the last
  event is \<open>failure\<close>; the events before it are those of the state changes the
  report triggers.
\<close>

theorem done_forwards_and_verdict:
  "callback_calls (trace (snd (done_fn eng args (Fn f) (now, a) w))) =
     callback_calls (trace w) @ [a]
   \<and> (f a = JBool True \<longrightarrow>
        reports (trace (snd (done_fn eng args (Fn f) (now, a) w))) =
          reports (trace w) @ [SuccessReported]
      \<and> breaker (snd (done_fn eng args (Fn f) (now, a) w)) =
          snd (eng_success eng now (breaker w))
      \<and> last (trace (snd (done_fn eng args (Fn f) (now, a) w))) =
          Emit ''success'' (ArgsPayload (service w) (name w)
            (getState eng (w\<lparr>breaker := snd (eng_success eng now (breaker w))\<rparr>)) args)
      \<and> event_names (drop (length (trace w))
            (trace (snd (done_fn eng args (Fn f) (now, a) w)))) =
          concat (map (\<lambda>(b, m). [''stateChange'', getState eng (w\<lparr>breaker := b\<rparr>)])
            (fst (eng_success eng now (breaker w)))) @ [''success''])
   \<and> (f a = JBool False \<longrightarrow>
        reports (trace (snd (done_fn eng args (Fn f) (now, a) w))) =
          reports (trace w) @ [FailureReported]
      \<and> breaker (snd (done_fn eng args (Fn f) (now, a) w)) =
          snd (eng_failure eng now (breaker w))
      \<and> last (trace (snd (done_fn eng args (Fn f) (now, a) w))) =
          Emit ''failure'' (ArgsPayload (service w) (name w)
            (getState eng (w\<lparr>breaker := snd (eng_failure eng now (breaker w))\<rparr>)) args)
      \<and> event_names (drop (length (trace w))
            (trace (snd (done_fn eng args (Fn f) (now, a) w)))) =
          concat (map (\<lambda>(b, m). [''stateChange'', getState eng (w\<lparr>breaker := b\<rparr>)])
            (fst (eng_failure eng now (breaker w)))) @ [''failure''])"
proof (intro conjI impI)
  show "callback_calls (trace (snd (done_fn eng args (Fn f) (now, a) w))) =
     callback_calls (trace w) @ [a]"
    by (simp add: done_fn_eq Let_def)
next
  assume "f a = JBool True"
  then have t: "truthy (f a)" by simp
  note s = done_fn_success [where f = f and a = a and eng = eng and args = args and now = now and w = w, OF t]
  show "reports (trace (snd (done_fn eng args (Fn f) (now, a) w))) =
          reports (trace w) @ [SuccessReported]"
    using s by blast
  show "breaker (snd (done_fn eng args (Fn f) (now, a) w)) =
          snd (eng_success eng now (breaker w))"
    using s by blast
  show "last (trace (snd (done_fn eng args (Fn f) (now, a) w))) =
          Emit ''success'' (ArgsPayload (service w) (name w)
            (getState eng (w\<lparr>breaker := snd (eng_success eng now (breaker w))\<rparr>)) args)"
    using s by blast
  show "event_names (drop (length (trace w))
            (trace (snd (done_fn eng args (Fn f) (now, a) w)))) =
          concat (map (\<lambda>(b, m). [''stateChange'', getState eng (w\<lparr>breaker := b\<rparr>)])
            (fst (eng_success eng now (breaker w)))) @ [''success'']"
    using s by blast
next
  assume "f a = JBool False"
  then have t: "\<not> truthy (f a)" by simp
  note s = done_fn_failure [where f = f and a = a and eng = eng and args = args and now = now and w = w, OF t]
  show "reports (trace (snd (done_fn eng args (Fn f) (now, a) w))) =
          reports (trace w) @ [FailureReported]"
    using s by blast
  show "breaker (snd (done_fn eng args (Fn f) (now, a) w)) =
          snd (eng_failure eng now (breaker w))"
    using s by blast
  show "last (trace (snd (done_fn eng args (Fn f) (now, a) w))) =
          Emit ''failure'' (ArgsPayload (service w) (name w)
            (getState eng (w\<lparr>breaker := snd (eng_failure eng now (breaker w))\<rparr>)) args)"
    using s by blast
  show "event_names (drop (length (trace w))
            (trace (snd (done_fn eng args (Fn f) (now, a) w)))) =
          concat (map (\<lambda>(b, m). [''stateChange'', getState eng (w\<lparr>breaker := b\<rparr>)])
            (fst (eng_failure eng now (breaker w)))) @ [''failure'']"
    using s by blast
qed

theorem done_forwards_and_verdict_witness:
  "callback_calls (trace (snd (done_fn test_engine [] (Fn (\<lambda>xs. JBool True))
      (1010, [JError ''boom'']) plain))) = [[JError ''boom'']]
   \<and> reports (trace (snd (done_fn test_engine [] (Fn (\<lambda>xs. JBool True))
      (1010, [JError ''boom'']) plain))) = [SuccessReported]
   \<and> event_names (trace (snd (done_fn test_engine [] (Fn (\<lambda>xs. JBool True))
      (1010, [JError ''boom'']) plain))) = [''success'']
   \<and> callback_calls (trace (snd (done_fn test_engine [] (Fn (\<lambda>xs. JBool False))
      (1010, []) plain))) = [[]]
   \<and> reports (trace (snd (done_fn test_engine [] (Fn (\<lambda>xs. JBool False))
      (1010, []) plain))) = [FailureReported]
   \<and> event_names (trace (snd (done_fn test_engine [] (Fn (\<lambda>xs. JBool False))
      (1010, []) plain))) = [''failure'']"
  using done_forwards_and_verdict [of test_engine "[]" "\<lambda>xs. JBool True" 1010 "[JError ''boom'']" plain]
    done_forwards_and_verdict [of test_engine "[]" "\<lambda>xs. JBool False" 1010 "[]" plain]
  by (simp add: plain_eq test_engine_simps report_plain)

text \<open>
  C4 (as amended). The admission check comes first: a rejected call emits \<open>rejected\<close>
  and no \<open>run\<close>; an admitted call emits \<open>run\<close>, with the state the admission check
  left, and then invokes the worker. When the worker completes once, synchronously, the
  events are \<open>run\<close>, then \<open>stateChange\<close> and the state-named event for each state
  change that reporting the outcome triggers, then \<open>success\<close> or \<open>failure\<close>; they
  are exactly \<open>run\<close>, \<open>success\<close> or \<open>run\<close>, \<open>failure\<close> when the report
  triggers no state change. As stated, for every admitted call, the claim fails: the
  failing call that opens the breaker emits four events.
\<close>

theorem run_event_sequence:
  "(\<not> fst (eng_run eng now (breaker w)) \<longrightarrow>
      event_names (trace (snd (run eng now worker args (Fn f) w))) =
        event_names (trace w) @ [''rejected''])
   \<and> (fst (eng_run eng now (breaker w)) \<longrightarrow>
      take 2 (drop (length (trace w)) (trace (snd (run eng now worker args (Fn f) w)))) =
        [Emit ''run'' (ArgsPayload (service w) (name w)
           (getState eng (w\<lparr>breaker := snd (eng_run eng now (breaker w))\<rparr>)) args),
         WorkerCalled args])
   \<and> (fst (eng_run eng now (breaker w)) \<and> worker args = [(t, a)] \<longrightarrow>
      event_names (trace (snd (run eng now worker args (Fn f) w))) =
        event_names (trace w) @ [''run'']
        @ concat (map (\<lambda>(b, m). [''stateChange'', getState eng (w\<lparr>breaker := b\<rparr>)])
            (fst (if truthy (f a) then eng_success eng t (snd (eng_run eng now (breaker w)))
                  else eng_failure eng t (snd (eng_run eng now (breaker w))))))
        @ [if truthy (f a) then ''success'' else ''failure''])
   \<and> (fst (eng_run eng now (breaker w)) \<and> worker args = [(t, a)]
        \<and> fst (if truthy (f a) then eng_success eng t (snd (eng_run eng now (breaker w)))
                else eng_failure eng t (snd (eng_run eng now (breaker w)))) = [] \<longrightarrow>
      event_names (trace (snd (run eng now worker args (Fn f) w))) =
        event_names (trace w) @ [''run'', if truthy (f a) then ''success'' else ''failure''])"
proof (intro conjI impI)
  assume "\<not> fst (eng_run eng now (breaker w))"
  then show "event_names (trace (snd (run eng now worker args (Fn f) w))) =
        event_names (trace w) @ [''rejected'']"
    by (simp add: run_rejected)
next
  assume "fst (eng_run eng now (breaker w))"
  then show "take 2 (drop (length (trace w)) (trace (snd (run eng now worker args (Fn f) w)))) =
        [Emit ''run'' (ArgsPayload (service w) (name w)
           (getState eng (w\<lparr>breaker := snd (eng_run eng now (breaker w))\<rparr>)) args),
         WorkerCalled args]"
    by (rule run_starts)
next
  assume "fst (eng_run eng now (breaker w)) \<and> worker args = [(t, a)]"
  then show "event_names (trace (snd (run eng now worker args (Fn f) w))) =
        event_names (trace w) @ [''run'']
        @ concat (map (\<lambda>(b, m). [''stateChange'', getState eng (w\<lparr>breaker := b\<rparr>)])
            (fst (if truthy (f a) then eng_success eng t (snd (eng_run eng now (breaker w)))
                  else eng_failure eng t (snd (eng_run eng now (breaker w))))))
        @ [if truthy (f a) then ''success'' else ''failure'']"
    by (simp add: run_single_names)
next
  assume h: "fst (eng_run eng now (breaker w)) \<and> worker args = [(t, a)]
        \<and> fst (if truthy (f a) then eng_success eng t (snd (eng_run eng now (breaker w)))
                else eng_failure eng t (snd (eng_run eng now (breaker w)))) = []"
  then have "event_names (trace (snd (run eng now worker args (Fn f) w))) =
        event_names (trace w) @ [''run'']
        @ concat (map (\<lambda>(b, m). [''stateChange'', getState eng (w\<lparr>breaker := b\<rparr>)])
            (fst (if truthy (f a) then eng_success eng t (snd (eng_run eng now (breaker w)))
                  else eng_failure eng t (snd (eng_run eng now (breaker w))))))
        @ [if truthy (f a) then ''success'' else ''failure'']"
    by (simp add: run_single_names)
  with h show "event_names (trace (snd (run eng now worker args (Fn f) w))) =
        event_names (trace w) @ [''run'', if truthy (f a) then ''success'' else ''failure'']"
    by simp
qed

theorem run_event_sequence_counterexample:
  "fst (eng_run test_engine 1010 (breaker fresh))
   \<and> event_names (trace (snd
       (run test_engine 1010 (\<lambda>args. [(1010, [])]) [] (Fn (\<lambda>xs. JBool False)) fresh))) =
     [''run'', ''stateChange'', ''open'', ''failure'']"
proof -
  have "snd (run test_engine 1010 (\<lambda>args. [(1010, [])]) [] (Fn (\<lambda>xs. JBool False)) fresh) = tripped"
    by (simp add: tripped_def)
  then show ?thesis
    by (simp add: tripped_eq test_engine_simps fresh_eq attempt_closed)
qed

theorem run_event_sequence_witness:
  "fst (eng_run test_engine 1010 (breaker plain))
   \<and> event_names (trace (snd
       (run test_engine 1010 (\<lambda>args. [(1010, [])]) [Val (JNum 1)] (Fn (\<lambda>xs. JBool True)) plain))) =
     [''run'', ''success'']
   \<and> event_names (trace (snd
       (run test_engine 1010 (\<lambda>args. [(1010, [])]) [Val (JNum 1)] (Fn (\<lambda>xs. JBool False)) plain))) =
     [''run'', ''failure'']
   \<and> take 2 (trace (snd
       (run test_engine 1010 (\<lambda>args. [(1010, [])]) [Val (JNum 1)] (Fn (\<lambda>xs. JBool True)) plain))) =
     [Emit ''run'' (ArgsPayload ''S'' ''N'' ''closed'' [Val (JNum 1)]), WorkerCalled [Val (JNum 1)]]
   \<and> \<not> fst (eng_run test_engine 1500 (breaker tripped))
   \<and> event_names (trace (snd
       (run test_engine 1500 (\<lambda>args. [(1500, [])]) [] (Fn (\<lambda>xs. JBool True)) tripped))) =
     [''run'', ''stateChange'', ''open'', ''failure'', ''rejected'']"
  using run_event_sequence
      [of test_engine 1010 plain "\<lambda>args. [(1010, [])]" "[Val (JNum 1)]" "\<lambda>xs. JBool True" 1010 "[]"]
    run_event_sequence
      [of test_engine 1010 plain "\<lambda>args. [(1010, [])]" "[Val (JNum 1)]" "\<lambda>xs. JBool False" 1010 "[]"]
    run_event_sequence
      [of test_engine 1500 tripped "\<lambda>args. [(1500, [])]" "[]" "\<lambda>xs. JBool True" 1500 "[]"]
  by (simp add: plain_eq tripped_eq test_engine_simps report_plain attempt_plain
      attempt_open_early getState_def plain_state)




text \<open>
  C6. \<open>wrap(fn, a1..aN)\<close> returns an object whose \<open>args\<close> is \<open>[a1..aN]\<close> and whose
  \<open>run(cb)\<close> does exactly what \<open>run(fn, a1..aN, cb)\<close> does in the same state at
  the same clock reading: the same worker arguments, the same trace, the same result.
\<close>

theorem wrap_defers_run:
  "wrapped_args (emitter_wrap eng worker args) = args
   \<and> wrapped_run (emitter_wrap eng worker args) now callback w =
     emitter_run eng now worker (args @ [callback]) w"
  by (simp add: emitter_wrap_def emitter_run_def pop_snoc)

text \<open>
  C7 (as amended). For every state change the engine notifies, exactly two events are
  emitted, with one and the same payload (service, name, state, duration, time,
  totalCount, errorCount, errorPercentage), in a fixed order: the generic
  \<open>stateChange\<close> event first, then the event named after the state the breaker is in.
  As stated the claim fails: the order is the reverse of the claimed one.
\<close>

theorem state_change_emits_two_events:
  "trace (emitStateChange eng now m w) =
     trace w @ [Emit ''stateChange'' (state_payload eng now m w),
                Emit (getState eng w) (state_payload eng now m w)]
   \<and> state_payload eng now m w =
     StatePayload (service w) (name w) (getState eng w)
       (p_duration (state_payload eng now m w)) now
       (totalCount m) (errorCount m) (errorPercentage m)
   \<and> getState eng w =
     (case eng_state eng (breaker w) of
        OPEN \<Rightarrow> ''open'' | HALF_OPEN \<Rightarrow> ''halfOpen'' | CLOSED \<Rightarrow> ''closed'')"
  by (simp add: emitStateChange_eq state_payload_def getState_def)

theorem state_change_emits_two_events_counterexample:
  "eng_state test_engine (breaker (fresh\<lparr>breaker := open_breaker\<rparr>)) = OPEN
   \<and> event_names (trace (emitStateChange test_engine 1010
       \<lparr>totalCount = 1, errorCount = 1, errorPercentage = 100\<rparr>
       (fresh\<lparr>breaker := open_breaker\<rparr>))) = [''stateChange'', ''open'']
   \<and> event_names (trace (emitStateChange test_engine 1010
       \<lparr>totalCount = 1, errorCount = 1, errorPercentage = 100\<rparr>
       (fresh\<lparr>breaker := open_breaker\<rparr>))) \<noteq> [''open'', ''stateChange'']"
  by (simp add: emitStateChange_eq fresh_eq test_engine_simps getState_def fixture_states)

text \<open>
  C8. The duration of a state-change event is the number of seconds since the previous
  state change, and null on the first one after creation: the code does this for every
  previous state change made at a clock reading other than 0 (lemma
  \<open>duration_since_previous_change\<close>). It tests \<open>lastStateChange\<close> for truthiness,
  though, so that when the first state change of a breaker is made at clock reading 0,
  the next one, here at 5000, reports the duration null and not 5 seconds.
\<close>

theorem duration_null_after_change_at_zero:
  "p_duration (state_payload eng 0 m (create eng svc nm opts)) = None
   \<and> lastStateChange (emitStateChange eng 0 m (create eng svc nm opts)) = Some 0
   \<and> p_duration (state_payload eng 5000 m'
        (emitStateChange eng 0 m (create eng svc nm opts))) = None"
  by (simp add: emitStateChange_eq state_payload_def create_def Let_def)

text \<open>
  C9. The verdict is the truthiness of what the callback returns: when it is falsy
  (undefined, null, 0, the empty string, NaN, false) a failure is reported and
  \<open>failure\<close> is emitted; when it is truthy (boolean or not) a success is reported and
  \<open>success\<close> is emitted.
\<close>

theorem verdict_by_truthiness:
  "(\<not> truthy (f a) \<longrightarrow>
        reports (trace (snd (done_fn eng args (Fn f) (now, a) w))) =
          reports (trace w) @ [FailureReported]
      \<and> breaker (snd (done_fn eng args (Fn f) (now, a) w)) =
          snd (eng_failure eng now (breaker w))
      \<and> last (trace (snd (done_fn eng args (Fn f) (now, a) w))) =
          Emit ''failure'' (ArgsPayload (service w) (name w)
            (getState eng (w\<lparr>breaker := snd (eng_failure eng now (breaker w))\<rparr>)) args))
   \<and> (truthy (f a) \<longrightarrow>
        reports (trace (snd (done_fn eng args (Fn f) (now, a) w))) =
          reports (trace w) @ [SuccessReported]
      \<and> breaker (snd (done_fn eng args (Fn f) (now, a) w)) =
          snd (eng_success eng now (breaker w))
      \<and> last (trace (snd (done_fn eng args (Fn f) (now, a) w))) =
          Emit ''success'' (ArgsPayload (service w) (name w)
            (getState eng (w\<lparr>breaker := snd (eng_success eng now (breaker w))\<rparr>)) args))
   \<and> \<not> truthy JUndefined \<and> \<not> truthy JNull \<and> \<not> truthy (JNum 0) \<and> \<not> truthy (JStr [])
   \<and> \<not> truthy JNaN \<and> \<not> truthy (JBool False)
   \<and> truthy (JNum 1) \<and> truthy (JStr ''ok'') \<and> truthy (JObject k) \<and> truthy (JError msg)"
  using done_fn_success [where f = f and a = a and eng = eng and args = args and now = now and w = w]
    done_fn_failure [where f = f and a = a and eng = eng and args = args and now = now and w = w]
  by simp

theorem verdict_by_truthiness_witness:
  "reports (trace (snd (done_fn test_engine [] (Fn (\<lambda>xs. JUndefined)) (1010, []) plain))) =
     [FailureReported]
   \<and> last (trace (snd (done_fn test_engine [] (Fn (\<lambda>xs. JUndefined)) (1010, []) plain))) =
     Emit ''failure'' (ArgsPayload ''S'' ''N'' ''closed'' [])
   \<and> reports (trace (snd (done_fn test_engine [] (Fn (\<lambda>xs. JStr ''ok'')) (1010, []) plain))) =
     [SuccessReported]
   \<and> last (trace (snd (done_fn test_engine [] (Fn (\<lambda>xs. JStr ''ok'')) (1010, []) plain))) =
     Emit ''success'' (ArgsPayload ''S'' ''N'' ''closed'' [])"
  using verdict_by_truthiness [of "\<lambda>xs. JUndefined" "[]" test_engine "[]" 1010 plain]
    verdict_by_truthiness [of "\<lambda>xs. JStr ''ok''" "[]" test_engine "[]" 1010 plain]
  by (simp add: plain_eq test_engine_simps report_plain getState_def)

text \<open>
  C10. Within one call of the completion function, the \<open>stateChange\<close> and state-named
  events of every state change that the report triggers are emitted before the
  \<open>success\<close> or \<open>failure\<close> event, and the state that event carries is the state
  of the engine after the report, not the one the call was admitted in.
\<close>

theorem state_change_before_outcome_event:
  "event_names (drop (length (trace w)) (trace (snd (done_fn eng args (Fn f) (now, a) w)))) =
     concat (map (\<lambda>(b, m). [''stateChange'', getState eng (w\<lparr>breaker := b\<rparr>)])
       (fst (if truthy (f a) then eng_success eng now (breaker w)
             else eng_failure eng now (breaker w))))
     @ [if truthy (f a) then ''success'' else ''failure'']
   \<and> last (trace (snd (done_fn eng args (Fn f) (now, a) w))) =
     Emit (if truthy (f a) then ''success'' else ''failure'')
       (ArgsPayload (service w) (name w)
          (getState eng (w\<lparr>breaker :=
             snd (if truthy (f a) then eng_success eng now (breaker w)
                  else eng_failure eng now (breaker w))\<rparr>)) args)"
  by (simp add: done_fn_eq Let_def state_changes_names)

theorem state_change_before_outcome_event_witness:
  "getState test_engine fresh = ''closed''
   \<and> event_names (trace (snd (done_fn test_engine [] (Fn (\<lambda>xs. JBool False)) (1010, []) fresh))) =
     [''stateChange'', ''open'', ''failure'']
   \<and> last (trace (snd (done_fn test_engine [] (Fn (\<lambda>xs. JBool False)) (1010, []) fresh))) =
     Emit ''failure'' (ArgsPayload ''S'' ''N'' ''open'' [])"
  using state_change_before_outcome_event
    [of fresh test_engine "[]" "\<lambda>xs. JBool False" 1010 "[]"]
  by (simp add: fresh_eq test_engine_simps reportFailure_closed getState_def fixture_states)

end
